theory Spec2Isabelle
  imports Complex_Main
begin

section \<open>Python string operations used by the pipeline\<close>

text \<open>
  Strings are character lists. \<open>startswith s p\<close> is Python's \<^verbatim>\<open>s.startswith(p)\<close>,
  \<open>contains s sub\<close> is \<^verbatim>\<open>sub in s\<close>.
\<close>

fun startswith :: "string \<Rightarrow> string \<Rightarrow> bool" where
  "startswith s [] = True"
| "startswith [] (p # ps) = False"
| "startswith (c # s) (p # ps) = (c = p \<and> startswith s ps)"

fun contains :: "string \<Rightarrow> string \<Rightarrow> bool" where
  "contains [] sub = (sub = [])"
| "contains (c # s) sub = (startswith (c # s) sub \<or> contains s sub)"

text \<open>
  \<open>str_split sep s\<close> is \<^verbatim>\<open>s.split(sep)\<close> for a non-empty separator: the
  occurrences of \<open>sep\<close> are found from the left, without overlap, and the text between
  them is returned, so the result is never the empty list. (Python raises ValueError on an
  empty separator; the pipeline only splits on two newlines.)
\<close>

function str_split :: "string \<Rightarrow> string \<Rightarrow> string list" where
  "str_split sep [] = [[]]"
| "str_split sep (c # s) =
     (if sep \<noteq> [] \<and> startswith (c # s) sep
      then [] # str_split sep (drop (length sep) (c # s))
      else (case str_split sep s of
              [] \<Rightarrow> [[c]]
            | seg # segs \<Rightarrow> (c # seg) # segs))"
  by pat_completeness auto
termination
  by (relation "measure (\<lambda>(sep, s). length s)") auto

definition newline :: char where
  "newline = CHR 0x0A"

text \<open>
  \<open>isspace\<close> is Python's \<^verbatim>\<open>str.isspace\<close> on one ASCII character, \<open>strip\<close> is
  \<^verbatim>\<open>s.strip()\<close>.
\<close>

definition isspace :: "char \<Rightarrow> bool" where
  "isspace c =
     (let n = of_char c :: nat in (9 \<le> n \<and> n \<le> 13) \<or> (28 \<le> n \<and> n \<le> 32))"

definition strip :: "string \<Rightarrow> string" where
  "strip s = rev (dropWhile isspace (rev (dropWhile isspace s)))"

text \<open>\<open>str_nat n\<close> is \<^verbatim>\<open>str(n)\<close> for a natural number: its decimal digits.\<close>

definition digit_char :: "nat \<Rightarrow> char" where
  "digit_char d = ''0123456789'' ! d"

function str_nat :: "nat \<Rightarrow> string" where
  "str_nat n = (if n < 10 then [digit_char n] else str_nat (n div 10) @ [digit_char (n mod 10)])"
  by pat_completeness auto
termination
  by (relation "measure (\<lambda>n. n)") auto

declare str_nat.simps [simp del]

section \<open>Data model\<close>

text \<open>
  The status values written to the documents table by \<^verbatim>\<open>update_document_status\<close>,
  and the metadata written with them.
\<close>

datatype status = UPLOADED | PROCESSING | COMPLETED | ERROR

text \<open>
  Exceptions as values. \<open>ClientError\<close> is botocore's exception, the only one
  \<^verbatim>\<open>get_questions\<close> names; \<open>OtherException\<close> is any other exception of an
  external call. \<open>ChunkingError\<close> is the chunker's failure of the specification.
\<close>

datatype error = ChunkingError | ClientError string | OtherException string

datatype metadata_blob =
    NoMetadata
  | RunCounts nat nat nat
  | ErrorMessage error

text \<open>
  One entry of the list returned by \<^verbatim>\<open>get_answer\<close>: the dictionary with the keys
  \<^verbatim>\<open>question\<close>, \<^verbatim>\<open>answer\<close> and \<^verbatim>\<open>metadata\<close> (the last is set on
  every path through the loop body).
\<close>

record answer_record =
  question :: string
  answer :: string
  metadata :: string

text \<open>
  The response of \<^verbatim>\<open>retrieve_and_generate\<close>: \<^verbatim>\<open>response["output"]["text"]\<close> and
  \<^verbatim>\<open>response["citations"]\<close>, each citation given by the S3 URIs of its
  \<^verbatim>\<open>retrievedReferences\<close>.
\<close>

record rag_response =
  output_text :: string
  citations :: "string list list"

text \<open>
  The calls that leave the process, in the order they are made: a status write to the
  documents table, the Textract loader, the generation call and the
  retrieval-and-generation call. User-interface calls (\<^verbatim>\<open>st.error\<close>,
  \<^verbatim>\<open>st.info\<close>, the progress bar) are not recorded.
\<close>

datatype 'tok event =
    StatusWrite status metadata_blob
  | LoadDocument string
  | InvokeModel "'tok list"
  | RetrieveAndGenerate string

text \<open>
  The calls of one run into code outside the repository: the Textract loader (given the
  URL, it returns the text of the document, here in tokens), the library's token splitter
  (given the chunk size, the overlap and the text), the generation call (it returns the
  texts of the content blocks of the response) and the retrieval-and-generation call.
  Each of them returns or raises.
\<close>

record 'tok env =
  load_and_split :: "string \<Rightarrow> error + 'tok list"
  token_text_splitter :: "nat \<Rightarrow> nat \<Rightarrow> 'tok list \<Rightarrow> error + 'tok list list"
  invoke_model :: "'tok list \<Rightarrow> error + string list"
  retrieve_and_generate :: "string \<Rightarrow> error + rag_response"

section \<open>Question extractor\<close>

text \<open>
  \<^verbatim>\<open>get_questions\<close>: one generation call. An exception of the call leaves the
  function (a \<open>ClientError\<close> is shown to the user and raised again, any other exception
  is not caught). Otherwise the loop over the content blocks returns in its first
  iteration; with no content block the function returns \<^verbatim>\<open>None\<close>.
\<close>

definition get_questions ::
  "'tok env \<Rightarrow> 'tok list \<Rightarrow> (error + string option) \<times> 'tok event list" where
  "get_questions env document_chunk =
     ((case invoke_model env document_chunk of
         Inl err \<Rightarrow> Inl err
       | Inr output_list \<Rightarrow>
           (case output_list of
              [] \<Rightarrow> Inr None
            | output # _ \<Rightarrow>
                if \<not> startswith output ''Unfortunately'' then Inr (Some output)
                else Inr (Some ''''))),
      [InvokeModel document_chunk])"

section \<open>Document chunker\<close>

text \<open>
  Modelled from the spec: the Document Chunker. The source obtains its chunks from
  \<^verbatim>\<open>TokenTextSplitter(chunk_size=1000, chunk_overlap=0).split_documents\<close>, a library
  call whose code is not in the repository. The specification describes it as splitting
  the text of the document into token windows of at most \<open>C\<close> tokens, consecutive
  windows sharing \<open>ov\<close> tokens (so each window starts \<open>C - ov\<close> tokens after the one
  before), never producing an empty chunk, and failing with \<open>ChunkingError\<close> on empty
  or invalid input.
\<close>

function windows :: "nat \<Rightarrow> nat \<Rightarrow> 'a list \<Rightarrow> 'a list list" where
  "windows C ov xs =
     (if xs = [] \<or> C \<le> ov then []
      else take C xs # windows C ov (drop (C - ov) xs))"
  by pat_completeness auto
termination
proof (relation "measure (\<lambda>(C, ov, xs). length xs)")
  show "wf (measure (\<lambda>(C :: nat, ov :: nat, xs :: 'a list). length xs))"
    by simp
next
  fix C ov :: nat and xs :: "'a list"
  assume "\<not> (xs = [] \<or> C \<le> ov)"
  then have "0 < length xs" and "0 < C - ov"
    by auto
  then have "length xs - (C - ov) < length xs"
    by arith
  then show "((C, ov, drop (C - ov) xs), (C, ov, xs))
               \<in> measure (\<lambda>(C, ov, xs). length xs)"
    by simp
qed

declare windows.simps [simp del]

definition chunker :: "nat \<Rightarrow> nat \<Rightarrow> 'a list \<Rightarrow> error + 'a list list" where
  "chunker C ov xs =
     (if xs = [] \<or> C \<le> ov then Inl ChunkingError else Inr (windows C ov xs))"

text \<open>The chunks a chunker call hands to the pipeline: none when it fails.\<close>

definition chunks_produced :: "error + 'a list list \<Rightarrow> 'a list list" where
  "chunks_produced r = (case r of Inl e \<Rightarrow> [] | Inr cs \<Rightarrow> cs)"

section \<open>Answer resolver\<close>

text \<open>
  The body of the loop of \<^verbatim>\<open>get_answer\<close> for one sub-question. The record starts
  with an empty question and answer. An exception of the retrieval call is caught by the
  handler, which sets the error marker and a blank citation and leaves the question as it
  is. After a successful call the question is stored and the returned text is tested
  against the five negative-result phrases. \<^verbatim>\<open>response['citations'][0]\<close> raises
  IndexError on an empty citation list; the same handler catches it, after the question
  has been stored.
\<close>

definition get_answer_body :: "'tok env \<Rightarrow> string \<Rightarrow> answer_record" where
  "get_answer_body env llm_generated_question =
     (case retrieve_and_generate env llm_generated_question of
        Inl e \<Rightarrow>
          \<lparr>question = '''', answer = ''Error: Unable to process the question.'',
           metadata = '' ''\<rparr>
      | Inr response \<Rightarrow>
          (let response_answer = output_text response in
           if \<not> contains response_answer ''Sorry, I am unable''
              \<and> \<not> contains response_answer ''The search results do not contain''
              \<and> \<not> contains response_answer ''No answer''
              \<and> \<not> contains response_answer ''I could not find''
              \<and> \<not> contains response_answer
                    ''there is no relevant information to extract for this question''
           then
             (case citations response of
                [] \<Rightarrow>
                  \<lparr>question = llm_generated_question,
                   answer = ''Error: Unable to process the question.'', metadata = '' ''\<rparr>
              | retrievedReferences # _ \<Rightarrow>
                  (case retrievedReferences of
                     uri # _ \<Rightarrow>
                       \<lparr>question = llm_generated_question,
                        answer = ''Answer: '' @ response_answer,
                        metadata = ''url: '' @ uri\<rparr>
                   | [] \<Rightarrow>
                       \<lparr>question = llm_generated_question,
                        answer = ''Answer: '' @ response_answer, metadata = '' ''\<rparr>))
           else
             \<lparr>question = llm_generated_question, answer = '' '', metadata = '' ''\<rparr>))"

text \<open>
  The loop of \<^verbatim>\<open>get_answer\<close>: one retrieval call and one appended record per
  sub-question, whatever the outcome of the call.
\<close>

fun get_answer_loop ::
  "'tok env \<Rightarrow> string list \<Rightarrow> answer_record list \<Rightarrow> 'tok event list
     \<Rightarrow> answer_record list \<times> 'tok event list" where
  "get_answer_loop env [] answers calls = (answers, calls)"
| "get_answer_loop env (q # qs) answers calls =
     get_answer_loop env qs (answers @ [get_answer_body env q])
       (calls @ [RetrieveAndGenerate q])"

text \<open>
  The sub-questions of an extracted-question string:
  \<^verbatim>\<open>questions.split("\n\n")[1:]\<close>.
\<close>

definition sub_questions :: "string \<Rightarrow> string list" where
  "sub_questions questions = tl (str_split [newline, newline] questions)"

definition get_answer :: "'tok env \<Rightarrow> string \<Rightarrow> answer_record list \<times> 'tok event list" where
  "get_answer env questions = get_answer_loop env (sub_questions questions) [] []"

section \<open>The run\<close>

text \<open>
  The loop of \<^verbatim>\<open>run_chunk_document\<close> over the chunks. An exception of
  \<^verbatim>\<open>get_questions\<close> is not caught here: it ends the loop. A chunk whose output is
  \<^verbatim>\<open>None\<close> or the empty string is counted and adds nothing.
\<close>

fun chunk_loop ::
  "'tok env \<Rightarrow> nat \<Rightarrow> 'tok list list \<Rightarrow> answer_record list \<Rightarrow> nat \<Rightarrow> 'tok event list
     \<Rightarrow> (error + answer_record list \<times> nat) \<times> 'tok event list" where
  "chunk_loop env max_chunks [] questionandanswer counter ev =
     (Inr (questionandanswer, counter), ev)"
| "chunk_loop env max_chunks (document_chunk # rest) questionandanswer counter ev =
     (case get_questions env document_chunk of
        (Inl e, ev1) \<Rightarrow> (Inl e, ev @ ev1)
      | (Inr output, ev1) \<Rightarrow>
          (case (case output of
                   None \<Rightarrow> (questionandanswer, [])
                 | Some s \<Rightarrow>
                     if s \<noteq> [] then
                       (case get_answer env s of
                          (result, ev2) \<Rightarrow> (questionandanswer @ result, ev2))
                     else (questionandanswer, [])) of
             (questionandanswer', ev2) \<Rightarrow>
               if counter + 1 \<ge> max_chunks
               then (Inr (questionandanswer', counter + 1), ev @ ev1 @ ev2)
               else chunk_loop env max_chunks rest questionandanswer' (counter + 1)
                      (ev @ ev1 @ ev2)))"

text \<open>
  \<^verbatim>\<open>run_chunk_document\<close>. The whole body is inside one \<^verbatim>\<open>try\<close>; its handler
  writes the status \<open>ERROR\<close> with the text of the exception. The splitter is called
  with \<^verbatim>\<open>chunk_size=1000\<close> and \<^verbatim>\<open>chunk_overlap=0\<close>. On success \<^verbatim>\<open>process_message\<close> stores the report in
  \<^verbatim>\<open>st.session_state.processed_results\<close>; on an exception the stored report is left
  as it was. The function returns the external calls it made and the stored report.
\<close>

definition run_chunk_document ::
  "'tok env \<Rightarrow> string \<Rightarrow> answer_record list \<Rightarrow> 'tok event list \<times> answer_record list" where
  "run_chunk_document env docurl processed_results =
     (let ev0 = [StatusWrite PROCESSING NoMetadata, LoadDocument docurl] in
      case load_and_split env docurl of
        Inl e \<Rightarrow> (ev0 @ [StatusWrite ERROR (ErrorMessage e)], processed_results)
      | Inr documents \<Rightarrow>
          (case token_text_splitter env 1000 0 documents of
             Inl e \<Rightarrow> (ev0 @ [StatusWrite ERROR (ErrorMessage e)], processed_results)
           | Inr split_documents \<Rightarrow>
               (let max_chunks = length split_documents in
                case chunk_loop env max_chunks (take max_chunks split_documents) [] 0 ev0 of
                  (Inl e, ev) \<Rightarrow>
                    (ev @ [StatusWrite ERROR (ErrorMessage e)], processed_results)
                | (Inr (questionandanswer, counter), ev) \<Rightarrow>
                    (ev @ [StatusWrite COMPLETED
                             (RunCounts counter max_chunks (length questionandanswer))],
                     questionandanswer))))"

text \<open>
  The processing path of \<^verbatim>\<open>display_upload_tab\<close>: when the upload gave a URL the
  status \<open>UPLOADED\<close> is written and the run is started.
\<close>

definition display_upload_tab ::
  "'tok env \<Rightarrow> string option \<Rightarrow> answer_record list
     \<Rightarrow> 'tok event list \<times> answer_record list" where
  "display_upload_tab env s3_url processed_results =
     (case s3_url of
        None \<Rightarrow> ([], processed_results)
      | Some url \<Rightarrow>
          if url = [] then ([], processed_results)
          else (case run_chunk_document env url processed_results of
                  (ev, results) \<Rightarrow> (StatusWrite UPLOADED NoMetadata # ev, results)))"

text \<open>The statuses written by a sequence of calls, in order.\<close>

fun status_writes :: "'tok event list \<Rightarrow> status list" where
  "status_writes [] = []"
| "status_writes (StatusWrite s m # ev) = s # status_writes ev"
| "status_writes (e # ev) = status_writes ev"

text \<open>Whether a call is a generation or a retrieval-and-generation call.\<close>

fun is_model_call :: "'tok event \<Rightarrow> bool" where
  "is_model_call (InvokeModel c) = True"
| "is_model_call (RetrieveAndGenerate q) = True"
| "is_model_call e = False"

section \<open>Result assembler: the exported document\<close>

text \<open>
  The content of the Word document in the order it is added: headings with their level
  and paragraphs, a paragraph being plain, a single bold run or all italic. Alignment and
  colour are not modelled.
\<close>

datatype element =
    Heading string nat
  | Paragraph string
  | BoldParagraph string
  | ItalicParagraph string

text \<open>
  The loop of \<^verbatim>\<open>create_word_document\<close> over \<^verbatim>\<open>enumerate(results)\<close>; \<open>n\<close> is
  \<^verbatim>\<open>len(results)\<close> and \<open>i\<close> the index of the first record of the list.
\<close>

fun add_results :: "nat \<Rightarrow> nat \<Rightarrow> answer_record list \<Rightarrow> element list" where
  "add_results n i [] = []"
| "add_results n i (result # results) =
     [Heading (''Question '' @ str_nat (i + 1) @ '':'') 1,
      BoldParagraph (question result),
      Heading ''Answer:'' 2]
     @ (if strip (answer result) \<noteq> '''' then [Paragraph (answer result)]
        else [ItalicParagraph ''No answer found for this question.''])
     @ (if strip (metadata result) \<noteq> ''''
        then [Heading ''Source:'' 2, Paragraph (metadata result)] else [])
     @ (if int i < int n - 1
        then [Paragraph '''', Paragraph (replicate 50 (CHR ''_'')), Paragraph '''']
        else [])
     @ add_results n (i + 1) results"

definition create_word_document :: "string \<Rightarrow> answer_record list \<Rightarrow> element list" where
  "create_word_document current_time results =
     [Heading ''Document Analysis Results'' 0,
      Paragraph (''Generated on: '' @ current_time),
      Paragraph '''']
     @ add_results (length results) 0 results"

text \<open>
  The question sections of a document, in document order: each heading of level 1 that
  is followed by a bold paragraph, with the text of that paragraph.
\<close>

fun question_sections :: "element list \<Rightarrow> (string \<times> string) list" where
  "question_sections [] = []"
| "question_sections [e] = []"
| "question_sections (e # e' # es) =
     (case (e, e') of
        (Heading h level, BoldParagraph q) \<Rightarrow>
          if level = 1 then (h, q) # question_sections es
          else question_sections (e' # es)
      | _ \<Rightarrow> question_sections (e' # es))"

section \<open>Notions used to state the properties\<close>

text \<open>\<open>str_join sep segs\<close> is \<^verbatim>\<open>sep.join(segs)\<close>.\<close>

fun str_join :: "string \<Rightarrow> string list \<Rightarrow> string" where
  "str_join sep [] = []"
| "str_join sep [x] = x"
| "str_join sep (x # y # ys) = x @ sep @ str_join sep (y # ys)"

text \<open>The five phrases tested by the condition in \<^verbatim>\<open>get_answer\<close>, in its order.\<close>

definition negative_phrases :: "string list" where
  "negative_phrases =
     [''Sorry, I am unable'', ''The search results do not contain'', ''No answer'',
      ''I could not find'', ''there is no relevant information to extract for this question'']"

text \<open>
  What one chunk adds to the report when its extraction returns, and the calls made for
  it: the generation call, then the retrieval calls of its sub-questions when the
  extracted text is not empty.
\<close>

definition chunk_records :: "'tok env \<Rightarrow> 'tok list \<Rightarrow> answer_record list" where
  "chunk_records env c =
     (case fst (get_questions env c) of
        Inr (Some s) \<Rightarrow> if s \<noteq> [] then fst (get_answer env s) else []
      | _ \<Rightarrow> [])"

definition chunk_calls :: "'tok env \<Rightarrow> 'tok list \<Rightarrow> 'tok event list" where
  "chunk_calls env c =
     InvokeModel c #
       (case fst (get_questions env c) of
          Inr (Some s) \<Rightarrow> if s \<noteq> [] then snd (get_answer env s) else []
        | _ \<Rightarrow> [])"

section \<open>Example runs\<close>

text \<open>
  An extracted-question text with a preamble and three numbered questions, and services
  for it: the first question gets a negative result, the retrieval call of the second
  raises, the third is answered with two references.
\<close>

definition example_questions :: string where
  "example_questions =
     ''Questions:'' @ [newline, newline] @ ''1. When?'' @ [newline, newline] @ ''2. Who?''
       @ [newline, newline] @ ''3. Where?''"

definition example_env :: "nat env" where
  "example_env =
     \<lparr>load_and_split = (\<lambda>docurl. Inr [7]),
      token_text_splitter = chunker,
      invoke_model = (\<lambda>chunk. Inr [example_questions, ''Unfortunately, ignored.'']),
      retrieve_and_generate =
        (\<lambda>q. if q = ''1. When?''
              then Inr \<lparr>output_text = ''I could not find a date.'', citations = [[]]\<rparr>
              else if q = ''2. Who?'' then Inl (OtherException ''throttled'')
              else Inr \<lparr>output_text = ''3. In Paris.'',
                        citations = [[''s3://kb/a.pdf'', ''s3://kb/b.pdf''], []]\<rparr>)\<rparr>"

text \<open>
  A document of 1001 tokens, hence two chunks, where the generation call fails on the
  first chunk and would succeed on the second.
\<close>

definition failing_env :: "nat env" where
  "failing_env =
     example_env
       \<lparr>load_and_split := (\<lambda>docurl. Inr (replicate 1000 0 @ [1])),
        invoke_model :=
          (\<lambda>chunk. if chunk = [1] then Inr [example_questions]
                    else Inl (ClientError ''timeout''))\<rparr>"

text \<open>A document whose text is empty.\<close>

definition empty_document_env :: "nat env" where
  "empty_document_env = example_env \<lparr>load_and_split := (\<lambda>docurl. Inr [])\<rparr>"

section \<open>Properties\<close>

lemma startswith_iff: "startswith s p \<longleftrightarrow> (\<exists>t. s = p @ t)"
  by (induction s p rule: startswith.induct) auto

text \<open>
  Claim C6. For every generation response with at least one content block, the question
  extractor reads only the first block: when its text begins with the marker
  \<^verbatim>\<open>Unfortunately\<close> the extractor returns the empty string, otherwise it returns the
  text of the block unchanged; the later blocks have no influence.
\<close>

theorem get_questions_first_block:
  assumes "invoke_model env chunk = Inr (first_block # later_blocks)"
  shows "fst (get_questions env chunk) =
           Inr (Some (if startswith first_block ''Unfortunately'' then '''' else first_block))"
  using assms by (simp add: get_questions_def)

theorem get_questions_first_block_witness:
  "invoke_model example_env [7] = Inr (example_questions # [''Unfortunately, ignored.''])
   \<and> fst (get_questions example_env [7]) = Inr (Some example_questions)
   \<and> invoke_model
         (example_env \<lparr>invoke_model := (\<lambda>c. Inr [''Unfortunately, none.'', ''1. When?''])\<rparr>) [7]
       = Inr (''Unfortunately, none.'' # [''1. When?''])
   \<and> fst (get_questions
         (example_env \<lparr>invoke_model := (\<lambda>c. Inr [''Unfortunately, none.'', ''1. When?''])\<rparr>) [7])
       = Inr (Some [])"
  using
    get_questions_first_block
      [of example_env "[7]" example_questions "[''Unfortunately, ignored.'']"]
    get_questions_first_block
      [of "example_env \<lparr>invoke_model := (\<lambda>c. Inr [''Unfortunately, none.'', ''1. When?''])\<rparr>"
          "[7]" "''Unfortunately, none.''" "[''1. When?'']"]
  by (simp add: example_env_def example_questions_def)

subsection \<open>Document chunker\<close>

lemma windows_Nil: "windows C ov [] = []"
  by (simp add: windows.simps)

lemma windows_step:
  "xs \<noteq> [] \<Longrightarrow> ov < C \<Longrightarrow> windows C ov xs = take C xs # windows C ov (drop (C - ov) xs)"
  by (subst windows.simps) simp

lemma ceil_div_step:
  fixes L s :: nat
  assumes "0 < s" "0 < L"
  shows "Suc ((L - s + s - 1) div s) = (L + s - 1) div s"
proof (cases "s \<le> L")
  case True
  then have a: "L - s + s - 1 = L - 1" by simp
  have b: "L + s - 1 = (L - 1) + s" using assms by simp
  have "(m + s) div s = Suc (m div s)" for m using assms(1) by simp
  then have "((L - 1) + s) div s = Suc ((L - 1) div s)" .
  then show ?thesis by (simp only: a b)
next
  case False
  then have a: "L - s + s - 1 = s - 1" by simp
  have z: "(s - 1) div s = 0" using assms by simp
  have b: "L + s - 1 = (L - 1) + s" using assms by simp
  have c: "(L - 1) div s = 0" using False assms by simp
  have "(m + s) div s = Suc (m div s)" for m using assms(1) by simp
  then have "((L - 1) + s) div s = Suc ((L - 1) div s)" .
  then show ?thesis by (simp only: a b c z)
qed

lemma ceiling_as_div:
  fixes L s :: nat
  assumes "0 < s"
  shows "\<lceil>real L / real s\<rceil> = int ((L + s - 1) div s)"
proof (rule ceiling_unique)
  define q where "q = (L + s - 1) div s"
  define r where "r = (L + s - 1) mod s"
  have eq: "L + s - 1 = q * s + r" by (simp add: q_def r_def)
  have r: "r < s" using assms by (simp add: r_def)
  have up: "L \<le> q * s" using eq r assms by arith
  have lo: "q * s < L + s" using eq r assms by arith
  have "real L \<le> real (q * s)" using up by (rule of_nat_mono)
  then have "real L / real s \<le> real q" using assms by (simp add: field_simps)
  then show "real L / real s \<le> of_int (int ((L + s - 1) div s))" by (simp add: q_def)
  have "real (q * s) < real (L + s)" using lo by (simp only: of_nat_less_iff)
  then have "real q - 1 < real L / real s" using assms by (simp add: field_simps)
  then show "of_int (int ((L + s - 1) div s)) - 1 < real L / real s" by (simp add: q_def)
qed

lemma windows_length:
  "ov < C \<Longrightarrow> length (windows C ov xs) = (length xs + (C - ov) - 1) div (C - ov)"
proof (induction C ov xs rule: windows.induct)
  case (1 C ov xs)
  show ?case
  proof (cases "xs = []")
    case True
    then show ?thesis using "1.prems" by (simp add: windows_Nil)
  next
    case False
    then have IH: "length (windows C ov (drop (C - ov) xs))
                    = (length (drop (C - ov) xs) + (C - ov) - 1) div (C - ov)"
      using "1.IH" "1.prems" by simp
    have "length (windows C ov xs) = Suc (length (windows C ov (drop (C - ov) xs)))"
      using False "1.prems" by (simp add: windows_step)
    also have "\<dots> = Suc ((length xs - (C - ov) + (C - ov) - 1) div (C - ov))"
      using IH by simp
    also have "\<dots> = (length xs + (C - ov) - 1) div (C - ov)"
      using ceil_div_step [of "C - ov" "length xs"] False "1.prems" by simp
    finally show ?thesis .
  qed
qed

lemma windows_bounds:
  "ov < C \<Longrightarrow> c \<in> set (windows C ov xs) \<Longrightarrow> c \<noteq> [] \<and> length c \<le> C"
proof (induction C ov xs rule: windows.induct)
  case (1 C ov xs)
  show ?case
  proof (cases "xs = []")
    case True
    then show ?thesis using "1.prems" by (simp add: windows_Nil)
  next
    case False
    then have "c = take C xs \<or> c \<in> set (windows C ov (drop (C - ov) xs))"
      using "1.prems" by (simp add: windows_step)
    then show ?thesis
    proof
      assume "c = take C xs"
      then show ?thesis using False "1.prems" by auto
    next
      assume "c \<in> set (windows C ov (drop (C - ov) xs))"
      then show ?thesis using "1.IH" False "1.prems" by simp
    qed
  qed
qed

text \<open>
  Claim C9. For a text of \<open>L\<close> tokens, a chunk size \<open>C\<close> and an overlap \<open>ov < C\<close>, the
  chunker of the specification produces exactly \<open>\<lceil>L / (C - ov)\<rceil>\<close> chunks (with
  \<open>ov = 0\<close> this is \<open>\<lceil>L / C\<rceil>\<close>), every chunk has at most \<open>C\<close> tokens and no chunk is
  empty; on a text that is not empty the chunker does not fail.
\<close>

theorem chunker_count_and_bounds:
  assumes "ov < C"
  shows "int (length (chunks_produced (chunker C ov xs)))
           = \<lceil>real (length xs) / real (C - ov)\<rceil>
         \<and> (\<forall>c \<in> set (chunks_produced (chunker C ov xs)). c \<noteq> [] \<and> length c \<le> C)
         \<and> (xs \<noteq> [] \<longrightarrow> chunker C ov xs = Inr (chunks_produced (chunker C ov xs)))"
proof -
  have produced: "chunks_produced (chunker C ov xs) = windows C ov xs"
    using assms by (simp add: chunker_def chunks_produced_def windows_Nil)
  have pos: "0 < C - ov"
    using assms by simp
  have "int (length (windows C ov xs)) = \<lceil>real (length xs) / real (C - ov)\<rceil>"
    by (simp only: windows_length [OF assms] ceiling_as_div [OF pos])
  moreover have "\<forall>c \<in> set (windows C ov xs). c \<noteq> [] \<and> length c \<le> C"
    using assms windows_bounds by blast
  moreover have "xs \<noteq> [] \<longrightarrow> chunker C ov xs = Inr (windows C ov xs)"
    using assms by (simp add: chunker_def)
  ultimately show ?thesis
    by (simp only: produced)
qed

theorem chunker_count_and_bounds_witness:
  "(2::nat) < 4
   \<and> chunker 4 2 [1, 2, 3, 4, 5 :: nat] = Inr [[1, 2, 3, 4], [3, 4, 5], [5]]
   \<and> int (length (chunks_produced (chunker 4 2 [1, 2, 3, 4, 5 :: nat])))
       = \<lceil>real (length [1, 2, 3, 4, 5 :: nat]) / real (4 - 2 :: nat)\<rceil>"
  using chunker_count_and_bounds [of 2 4 "[1, 2, 3, 4, 5 :: nat]"]
  by (simp add: chunker_def windows.simps)

subsection \<open>Strings\<close>

lemma contains_iff: "contains s sub \<longleftrightarrow> (\<exists>a b. s = a @ sub @ b)"
proof (induction s)
  case Nil
  then show ?case by auto
next
  case (Cons c s)
  show ?case
  proof
    assume "contains (c # s) sub"
    then consider "startswith (c # s) sub" | "contains s sub" by auto
    then show "\<exists>a b. c # s = a @ sub @ b"
    proof cases
      case 1
      then obtain t where "c # s = sub @ t" by (auto simp: startswith_iff)
      then have "c # s = [] @ sub @ t" by simp
      then show ?thesis by blast
    next
      case 2
      then obtain a b where "s = a @ sub @ b" using Cons.IH by auto
      then have "c # s = (c # a) @ sub @ b" by simp
      then show ?thesis by blast
    qed
  next
    assume "\<exists>a b. c # s = a @ sub @ b"
    then obtain a b where ab: "c # s = a @ sub @ b" by auto
    show "contains (c # s) sub"
    proof (cases a)
      case Nil
      then have "startswith (c # s) sub" using ab by (auto simp: startswith_iff)
      then show ?thesis by simp
    next
      case (Cons x a')
      then have "s = a' @ sub @ b" using ab by simp
      then have "contains s sub" using Cons.IH by auto
      then show ?thesis by simp
    qed
  qed
qed

lemma str_split_not_Nil: "str_split sep s \<noteq> []"
  by (induction sep s rule: str_split.induct) (auto split: list.splits)

lemma str_join_Nil_Cons: "segs \<noteq> [] \<Longrightarrow> str_join sep ([] # segs) = sep @ str_join sep segs"
  by (cases segs) auto

lemma startswith_drop: "startswith s p \<Longrightarrow> p @ drop (length p) s = s"
  by (auto simp: startswith_iff)

lemma str_join_split: "str_join sep (str_split sep s) = s"
proof (induction sep s rule: str_split.induct)
  case (1 sep)
  show ?case by simp
next
  case (2 sep c s)
  show ?case
  proof (cases "sep \<noteq> [] \<and> startswith (c # s) sep")
    case True
    then have "str_join sep (str_split sep (c # s))
                = sep @ str_join sep (str_split sep (drop (length sep) (c # s)))"
      by (simp add: str_join_Nil_Cons str_split_not_Nil del: drop_Suc_Cons)
    also have "\<dots> = sep @ drop (length sep) (c # s)"
      using "2.IH"(1) True by simp
    also have "\<dots> = c # s"
      using True by (simp add: startswith_drop del: drop_Suc_Cons)
    finally show ?thesis .
  next
    case False
    obtain seg segs where split: "str_split sep s = seg # segs"
      using str_split_not_Nil [of sep s] by (cases "str_split sep s") auto
    have "str_join sep (str_split sep s) = s"
      using "2.IH"(2) False by simp
    then show ?thesis
      using False split by (cases segs) auto
  qed
qed

lemma example_sub_questions:
  "sub_questions example_questions = [''1. When?'', ''2. Who?'', ''3. Where?'']"
  by (simp add: sub_questions_def example_questions_def newline_def)

subsection \<open>Answer resolver\<close>

lemma get_answer_loop_eq:
  "get_answer_loop env qs answers calls
     = (answers @ map (get_answer_body env) qs, calls @ map RetrieveAndGenerate qs)"
  by (induction qs arbitrary: answers calls) auto

lemma get_answer_eq:
  "get_answer env questions
     = (map (get_answer_body env) (sub_questions questions),
        map RetrieveAndGenerate (sub_questions questions))"
  by (simp add: get_answer_def get_answer_loop_eq)

lemma negative_phrases_iff:
  "list_ex (contains t) negative_phrases \<longleftrightarrow>
     \<not> (\<not> contains t ''Sorry, I am unable''
        \<and> \<not> contains t ''The search results do not contain''
        \<and> \<not> contains t ''No answer''
        \<and> \<not> contains t ''I could not find''
        \<and> \<not> contains t ''there is no relevant information to extract for this question'')"
  by (simp add: negative_phrases_def)

lemma get_answer_body_raises:
  "retrieve_and_generate env q = Inl e \<Longrightarrow>
     get_answer_body env q
       = \<lparr>question = '''', answer = ''Error: Unable to process the question.'', metadata = '' ''\<rparr>"
  by (simp add: get_answer_body_def)

lemma get_answer_body_negative:
  "retrieve_and_generate env q = Inr response \<Longrightarrow>
   list_ex (contains (output_text response)) negative_phrases \<Longrightarrow>
     get_answer_body env q = \<lparr>question = q, answer = '' '', metadata = '' ''\<rparr>"
  unfolding negative_phrases_iff by (auto simp: get_answer_body_def Let_def)

lemma get_answer_body_positive:
  "retrieve_and_generate env q = Inr response \<Longrightarrow>
   \<not> list_ex (contains (output_text response)) negative_phrases \<Longrightarrow>
   citations response = refs # others \<Longrightarrow>
     get_answer_body env q
       = \<lparr>question = q, answer = ''Answer: '' @ output_text response,
          metadata = (case refs of [] \<Rightarrow> '' '' | uri # _ \<Rightarrow> ''url: '' @ uri)\<rparr>"
  unfolding negative_phrases_iff by (simp add: get_answer_body_def Let_def split: list.splits)

lemma example_bodies:
  "get_answer_body example_env ''1. When?'' = \<lparr>question = ''1. When?'', answer = '' '', metadata = '' ''\<rparr>"
  "get_answer_body example_env ''2. Who?'' = \<lparr>question = '''', answer = ''Error: Unable to process the question.'', metadata = '' ''\<rparr>"
  "get_answer_body example_env ''3. Where?'' = \<lparr>question = ''3. Where?'', answer = ''Answer: 3. In Paris.'', metadata = ''url: s3://kb/a.pdf''\<rparr>"
  by (simp_all add: get_answer_body_def example_env_def)

text \<open>
  Claim C3, as the code has it. For every sub-question whose retrieval call returns: if
  the returned text contains one of the five negative-result phrases (among them
  \<^verbatim>\<open>I could not find\<close>), the record has the sub-question as its question and one
  blank as its answer and as its citation, not the error marker; otherwise, when the
  response has at least one citation entry, the answer is the returned text after the
  label \<^verbatim>\<open>Answer: \<close> and the citation is \<^verbatim>\<open>url: \<close> followed by the URI of the
  first retrieved reference of the first citation entry, or one blank when that entry has
  no retrieved reference.
\<close>

theorem successful_retrieval_record:
  assumes "retrieve_and_generate env q = Inr response"
  shows "(list_ex (contains (output_text response)) negative_phrases \<longrightarrow>
            get_answer_body env q = \<lparr>question = q, answer = '' '', metadata = '' ''\<rparr>)
         \<and> (\<not> list_ex (contains (output_text response)) negative_phrases \<longrightarrow>
              (\<forall>refs others. citations response = refs # others \<longrightarrow>
                 get_answer_body env q
                   = \<lparr>question = q, answer = ''Answer: '' @ output_text response,
                      metadata = (case refs of [] \<Rightarrow> '' '' | uri # _ \<Rightarrow> ''url: '' @ uri)\<rparr>))"
  using assms get_answer_body_negative get_answer_body_positive by blast

theorem successful_retrieval_record_witness:
  "retrieve_and_generate example_env ''3. Where?''
     = Inr \<lparr>output_text = ''3. In Paris.'', citations = [[''s3://kb/a.pdf'', ''s3://kb/b.pdf''], []]\<rparr>
   \<and> \<not> list_ex (contains ''3. In Paris.'') negative_phrases
   \<and> get_answer_body example_env ''3. Where?''
       = \<lparr>question = ''3. Where?'', answer = ''Answer: 3. In Paris.'',
          metadata = ''url: s3://kb/a.pdf''\<rparr>
   \<and> retrieve_and_generate example_env ''1. When?''
       = Inr \<lparr>output_text = ''I could not find a date.'', citations = [[]]\<rparr>
   \<and> list_ex (contains ''I could not find a date.'') negative_phrases
   \<and> get_answer_body example_env ''1. When?''
       = \<lparr>question = ''1. When?'', answer = '' '', metadata = '' ''\<rparr>"
  using
    successful_retrieval_record
      [of example_env "''3. Where?''"
          "\<lparr>output_text = ''3. In Paris.'', citations = [[''s3://kb/a.pdf'', ''s3://kb/b.pdf''], []]\<rparr>"]
    successful_retrieval_record
      [of example_env "''1. When?''"
          "\<lparr>output_text = ''I could not find a date.'', citations = [[]]\<rparr>"]
  by (simp add: example_env_def negative_phrases_def)

text \<open>
  Claim C3 as stated asks for an empty answer and an empty citation on a negative result.
  On the response text \<^verbatim>\<open>I could not find a date.\<close> the answer and the citation of
  the record are one blank each, not the empty string.
\<close>

theorem negative_result_not_empty_counterexample:
  "retrieve_and_generate example_env ''1. When?''
     = Inr \<lparr>output_text = ''I could not find a date.'', citations = [[]]\<rparr>
   \<and> contains ''I could not find a date.'' ''I could not find''
   \<and> answer (get_answer_body example_env ''1. When?'') = '' ''
   \<and> metadata (get_answer_body example_env ''1. When?'') = '' ''
   \<and> answer (get_answer_body example_env ''1. When?'') \<noteq> ''''
   \<and> metadata (get_answer_body example_env ''1. When?'') \<noteq> ''''"
  by (simp add: example_env_def get_answer_body_def)

text \<open>
  Claim C4. The answer resolver splits the extracted-question text on two newlines (the
  segments joined by two newlines give the text back), discards the first segment whatever
  it is, makes one retrieval call for each remaining segment and returns exactly one
  record for each, in the order of the segments; so the number of records is at most the
  number of segments.
\<close>

theorem get_answer_one_record_per_sub_question:
  "(\<exists>first_segment. str_split [newline, newline] questions
        = first_segment # sub_questions questions)
   \<and> str_join [newline, newline] (str_split [newline, newline] questions) = questions
   \<and> snd (get_answer env questions) = map RetrieveAndGenerate (sub_questions questions)
   \<and> fst (get_answer env questions) = map (get_answer_body env) (sub_questions questions)
   \<and> length (fst (get_answer env questions)) = length (sub_questions questions)
   \<and> length (fst (get_answer env questions)) \<le> length (str_split [newline, newline] questions)"
proof -
  obtain seg segs where split: "str_split [newline, newline] questions = seg # segs"
    using str_split_not_Nil [of "[newline, newline]" questions]
    by (cases "str_split [newline, newline] questions") auto
  then have "sub_questions questions = segs"
    by (simp add: sub_questions_def)
  then show ?thesis
    using split str_join_split [of "[newline, newline]" questions]
    by (simp add: get_answer_eq)
qed

theorem get_answer_one_record_per_sub_question_witness:
  "str_split [newline, newline] example_questions
     = [''Questions:'', ''1. When?'', ''2. Who?'', ''3. Where?'']
   \<and> snd (get_answer example_env example_questions)
       = [RetrieveAndGenerate ''1. When?'', RetrieveAndGenerate ''2. Who?'',
          RetrieveAndGenerate ''3. Where?'']
   \<and> fst (get_answer example_env example_questions)
       = [\<lparr>question = ''1. When?'', answer = '' '', metadata = '' ''\<rparr>,
          \<lparr>question = '''', answer = ''Error: Unable to process the question.'',
           metadata = '' ''\<rparr>,
          \<lparr>question = ''3. Where?'', answer = ''Answer: 3. In Paris.'',
           metadata = ''url: s3://kb/a.pdf''\<rparr>]"
  using get_answer_one_record_per_sub_question [of example_questions example_env]
  by (simp add: example_sub_questions example_bodies)
     (simp add: example_questions_def newline_def)

text \<open>
  Claim C5. When the retrieval call of a sub-question raises, its record has the error
  marker as answer and one blank as citation, and the batch goes on: the resolver still
  calls the service for every sub-question, returns one record for every sub-question, and
  the record of each sub-question is what its own call gives.
\<close>

theorem failed_sub_question_is_isolated:
  assumes "i < length (sub_questions questions)"
      and "retrieve_and_generate env (sub_questions questions ! i) = Inl e"
  shows "length (fst (get_answer env questions)) = length (sub_questions questions)
         \<and> answer (fst (get_answer env questions) ! i) = ''Error: Unable to process the question.''
         \<and> metadata (fst (get_answer env questions) ! i) = '' ''
         \<and> snd (get_answer env questions) = map RetrieveAndGenerate (sub_questions questions)
         \<and> (\<forall>j < length (sub_questions questions).
               fst (get_answer env questions) ! j
                 = get_answer_body env (sub_questions questions ! j))"
  using assms by (simp add: get_answer_eq get_answer_body_raises)

theorem failed_sub_question_is_isolated_witness:
  "(1::nat) < length (sub_questions example_questions)
   \<and> retrieve_and_generate example_env (sub_questions example_questions ! 1)
       = Inl (OtherException ''throttled'')
   \<and> length (fst (get_answer example_env example_questions)) = 3
   \<and> answer (fst (get_answer example_env example_questions) ! 1)
       = ''Error: Unable to process the question.''
   \<and> metadata (fst (get_answer example_env example_questions) ! 1) = '' ''
   \<and> snd (get_answer example_env example_questions)
       = [RetrieveAndGenerate ''1. When?'', RetrieveAndGenerate ''2. Who?'',
          RetrieveAndGenerate ''3. Where?'']
   \<and> fst (get_answer example_env example_questions) ! 2
       = \<lparr>question = ''3. Where?'', answer = ''Answer: 3. In Paris.'',
          metadata = ''url: s3://kb/a.pdf''\<rparr>"
proof -
  have i: "(1::nat) < length (sub_questions example_questions)"
    by (simp add: example_sub_questions)
  have e: "retrieve_and_generate example_env (sub_questions example_questions ! 1)
             = Inl (OtherException ''throttled'')"
    by (simp add: example_sub_questions example_env_def)
  show ?thesis
    using failed_sub_question_is_isolated [OF i e] i e
    by (simp add: example_sub_questions example_bodies)
qed

subsection \<open>Exported document\<close>

lemma question_sections_skip:
  "(\<forall>h. e \<noteq> Heading h 1) \<Longrightarrow> question_sections (e # es) = question_sections es"
  by (cases es; cases e) (auto split: element.splits)

lemma question_sections_skips [simp]:
  "question_sections (Paragraph p # es) = question_sections es"
  "question_sections (ItalicParagraph p # es) = question_sections es"
  "question_sections (BoldParagraph p # es) = question_sections es"
  "question_sections (Heading h 2 # es) = question_sections es"
  "question_sections (Heading h 0 # es) = question_sections es"
  by (simp_all add: question_sections_skip)

lemma question_sections_hit [simp]:
  "question_sections (Heading h (Suc 0) # BoldParagraph q # es) = (h, q) # question_sections es"
  by simp

lemma question_sections_add_results:
  "question_sections (add_results n i results)
     = map (\<lambda>(k, r). (''Question '' @ str_nat (k + 1) @ '':'', question r))
         (List.enumerate i results)"
proof (induction results arbitrary: i)
  case Nil
  show ?case by simp
next
  case (Cons r results)
  show ?case
    by (simp add: Cons.IH del: question_sections.simps)
qed

lemma question_sections_document:
  "question_sections (create_word_document t results)
     = map (\<lambda>(k, r). (''Question '' @ str_nat (k + 1) @ '':'', question r))
         (List.enumerate 0 results)"
  by (simp add: create_word_document_def question_sections_add_results
           del: question_sections.simps)

lemma map_snd_enumerate:
  "map snd (map (\<lambda>(k, r). (g k, f r)) (List.enumerate i rs)) = map f rs"
  by (induction rs arbitrary: i) auto

lemma document_questions:
  "map snd (question_sections (create_word_document t results)) = map question results"
  by (simp only: question_sections_document map_snd_enumerate)

subsection \<open>The run\<close>

lemma chunk_loop_Cons:
  "chunk_loop env m (c # rest) qa k ev =
     (case invoke_model env c of
        Inl e \<Rightarrow> (Inl e, ev @ [InvokeModel c])
      | Inr blocks \<Rightarrow>
          if k + 1 \<ge> m
          then (Inr (qa @ chunk_records env c, k + 1), ev @ chunk_calls env c)
          else chunk_loop env m rest (qa @ chunk_records env c) (k + 1)
                 (ev @ chunk_calls env c))"
  by (simp add: get_questions_def chunk_records_def chunk_calls_def
           split: sum.splits list.splits prod.splits)

lemma chunk_loop_success:
  assumes "\<forall>c \<in> set cs. \<exists>blocks. invoke_model env c = Inr blocks"
      and "k + length cs = m"
  shows "chunk_loop env m cs qa k ev
           = (Inr (qa @ concat (map (chunk_records env) cs), m),
              ev @ concat (map (chunk_calls env) cs))"
  using assms
proof (induction cs arbitrary: qa k ev)
  case Nil
  then show ?case by simp
next
  case (Cons c rest)
  obtain blocks where blocks: "invoke_model env c = Inr blocks"
    using Cons.prems(1) by auto
  show ?case
  proof (cases "rest = []")
    case True
    then show ?thesis
      using blocks Cons.prems(2) by (simp add: chunk_loop_Cons del: chunk_loop.simps)
  next
    case False
    then have "\<not> k + 1 \<ge> m"
      using Cons.prems(2) by (cases rest) auto
    moreover have "chunk_loop env m rest (qa @ chunk_records env c) (k + 1)
                     (ev @ chunk_calls env c)
                   = (Inr ((qa @ chunk_records env c) @ concat (map (chunk_records env) rest), m),
                      (ev @ chunk_calls env c) @ concat (map (chunk_calls env) rest))"
      using Cons.prems by (intro Cons.IH) auto
    ultimately show ?thesis
      using blocks by (simp add: chunk_loop_Cons del: chunk_loop.simps)
  qed
qed

lemma chunk_loop_failure:
  assumes "\<forall>c \<in> set pre. \<exists>blocks. invoke_model env c = Inr blocks"
      and "invoke_model env c = Inl e"
      and "k + length (pre @ c # post) = m"
  shows "chunk_loop env m (pre @ c # post) qa k ev
           = (Inl e, ev @ concat (map (chunk_calls env) pre) @ [InvokeModel c])"
  using assms
proof (induction pre arbitrary: qa k ev)
  case Nil
  then show ?case by (simp add: chunk_loop_Cons del: chunk_loop.simps)
next
  case (Cons p pre)
  obtain blocks where blocks: "invoke_model env p = Inr blocks"
    using Cons.prems(1) by auto
  have "\<not> k + 1 \<ge> m"
    using Cons.prems(3) by auto
  moreover have "chunk_loop env m (pre @ c # post) (qa @ chunk_records env p) (k + 1)
                   (ev @ chunk_calls env p)
                 = (Inl e, (ev @ chunk_calls env p) @ concat (map (chunk_calls env) pre)
                      @ [InvokeModel c])"
    using Cons.prems by (intro Cons.IH) auto
  ultimately show ?case
    using blocks by (simp add: chunk_loop_Cons del: chunk_loop.simps)
qed

lemma chunk_calls_model: "list_all is_model_call (chunk_calls env c)"
  by (auto simp: chunk_calls_def get_answer_eq list_all_iff split: sum.splits option.splits)

lemma chunk_loop_calls:
  "\<exists>calls. snd (chunk_loop env m cs qa k ev) = ev @ calls \<and> list_all is_model_call calls"
proof (induction cs arbitrary: qa k ev)
  case Nil
  show ?case by simp
next
  case (Cons c rest)
  show ?case
  proof (cases "invoke_model env c")
    case (Inl e)
    then show ?thesis by (simp add: chunk_loop_Cons del: chunk_loop.simps)
  next
    case (Inr blocks)
    show ?thesis
    proof (cases "k + 1 \<ge> m")
      case True
      then show ?thesis
        using Inr chunk_calls_model [of env c]
        by (simp add: chunk_loop_Cons del: chunk_loop.simps)
    next
      case False
      obtain calls where
        "snd (chunk_loop env m rest (qa @ chunk_records env c) (k + 1) (ev @ chunk_calls env c))
           = (ev @ chunk_calls env c) @ calls" and "list_all is_model_call calls"
        using Cons.IH by blast
      then show ?thesis
        using Inr False chunk_calls_model [of env c]
        by (simp add: chunk_loop_Cons del: chunk_loop.simps)
    qed
  qed
qed

lemma status_writes_append: "status_writes (xs @ ys) = status_writes xs @ status_writes ys"
  by (induction xs rule: status_writes.induct) auto

lemma status_writes_model_calls: "list_all is_model_call calls \<Longrightarrow> status_writes calls = []"
  by (induction calls rule: status_writes.induct) auto

lemma run_chunk_document_load_fails:
  assumes "load_and_split env docurl = Inl e"
  shows "run_chunk_document env docurl pr
           = ([StatusWrite PROCESSING NoMetadata, LoadDocument docurl,
               StatusWrite ERROR (ErrorMessage e)], pr)"
  using assms by (simp add: run_chunk_document_def Let_def)

lemma run_chunk_document_split_fails:
  assumes "load_and_split env docurl = Inr documents"
      and "token_text_splitter env 1000 0 documents = Inl e"
  shows "run_chunk_document env docurl pr
           = ([StatusWrite PROCESSING NoMetadata, LoadDocument docurl,
               StatusWrite ERROR (ErrorMessage e)], pr)"
  using assms by (simp add: run_chunk_document_def Let_def)

lemma run_chunk_document_completes:
  assumes "load_and_split env docurl = Inr documents"
      and "token_text_splitter env 1000 0 documents = Inr chunks"
      and "\<forall>c \<in> set chunks. \<exists>blocks. invoke_model env c = Inr blocks"
  shows "run_chunk_document env docurl pr
           = ([StatusWrite PROCESSING NoMetadata, LoadDocument docurl]
                @ concat (map (chunk_calls env) chunks)
                @ [StatusWrite COMPLETED
                     (RunCounts (length chunks) (length chunks)
                        (length (concat (map (chunk_records env) chunks))))],
              concat (map (chunk_records env) chunks))"
proof -
  have "chunk_loop env (length chunks) chunks [] 0
          [StatusWrite PROCESSING NoMetadata, LoadDocument docurl]
        = (Inr ([] @ concat (map (chunk_records env) chunks), length chunks),
           [StatusWrite PROCESSING NoMetadata, LoadDocument docurl]
             @ concat (map (chunk_calls env) chunks))"
    using assms(3) by (intro chunk_loop_success) auto
  then show ?thesis
    using assms(1,2) by (simp add: run_chunk_document_def Let_def)
qed

lemma run_chunk_document_extraction_fails:
  assumes "load_and_split env docurl = Inr documents"
      and "token_text_splitter env 1000 0 documents = Inr (pre @ c # post)"
      and "\<forall>p \<in> set pre. \<exists>blocks. invoke_model env p = Inr blocks"
      and "invoke_model env c = Inl e"
  shows "run_chunk_document env docurl pr
           = ([StatusWrite PROCESSING NoMetadata, LoadDocument docurl]
                @ concat (map (chunk_calls env) pre)
                @ [InvokeModel c, StatusWrite ERROR (ErrorMessage e)],
              pr)"
proof -
  have "chunk_loop env (length (pre @ c # post)) (pre @ c # post) [] 0
          [StatusWrite PROCESSING NoMetadata, LoadDocument docurl]
        = (Inl e, [StatusWrite PROCESSING NoMetadata, LoadDocument docurl]
             @ concat (map (chunk_calls env) pre) @ [InvokeModel c])"
    using assms(3,4) by (intro chunk_loop_failure) auto
  then show ?thesis
    using assms(1,2) by (simp add: run_chunk_document_def Let_def)
qed

lemma run_chunk_document_calls:
  "\<exists>calls t m. (t = COMPLETED \<or> t = ERROR) \<and> list_all is_model_call calls
     \<and> fst (run_chunk_document env docurl pr)
         = [StatusWrite PROCESSING NoMetadata, LoadDocument docurl] @ calls @ [StatusWrite t m]"
proof (cases "load_and_split env docurl")
  case (Inl e)
  then have "fst (run_chunk_document env docurl pr)
      = [StatusWrite PROCESSING NoMetadata, LoadDocument docurl] @ []
          @ [StatusWrite ERROR (ErrorMessage e)]"
    by (simp add: run_chunk_document_load_fails)
  moreover have "list_all is_model_call ([] :: 'a event list)" by simp
  ultimately show ?thesis by blast
next
  case load: (Inr documents)
  show ?thesis
  proof (cases "token_text_splitter env 1000 0 documents")
    case (Inl e)
    then have "fst (run_chunk_document env docurl pr)
        = [StatusWrite PROCESSING NoMetadata, LoadDocument docurl] @ []
            @ [StatusWrite ERROR (ErrorMessage e)]"
      using load by (simp add: run_chunk_document_split_fails)
    moreover have "list_all is_model_call ([] :: 'a event list)" by simp
    ultimately show ?thesis by blast
  next
    case split: (Inr chunks)
    obtain r ev where loop:
      "chunk_loop env (length chunks) chunks [] 0
         [StatusWrite PROCESSING NoMetadata, LoadDocument docurl] = (r, ev)"
      by (cases "chunk_loop env (length chunks) chunks [] 0
                   [StatusWrite PROCESSING NoMetadata, LoadDocument docurl]") auto
    obtain calls where calls:
      "ev = [StatusWrite PROCESSING NoMetadata, LoadDocument docurl] @ calls"
      and model: "list_all is_model_call calls"
      using chunk_loop_calls [of env "length chunks" chunks "[]" 0
              "[StatusWrite PROCESSING NoMetadata, LoadDocument docurl]"] loop
      by auto
    show ?thesis
    proof (cases r)
      case (Inl e)
      then have "fst (run_chunk_document env docurl pr)
          = [StatusWrite PROCESSING NoMetadata, LoadDocument docurl] @ calls
              @ [StatusWrite ERROR (ErrorMessage e)]"
        using load split loop calls
        by (simp add: run_chunk_document_def Let_def)
      then show ?thesis using model by blast
    next
      case (Inr res)
      then have "fst (run_chunk_document env docurl pr)
          = [StatusWrite PROCESSING NoMetadata, LoadDocument docurl] @ calls
              @ [StatusWrite COMPLETED (RunCounts (snd res) (length chunks) (length (fst res)))]"
        using load split loop calls
        by (simp add: run_chunk_document_def Let_def split: prod.splits)
      then show ?thesis using model by blast
    qed
  qed
qed

subsection \<open>The example runs\<close>

lemma get_answer_body_returns:
  "retrieve_and_generate env q = Inr response \<Longrightarrow> question (get_answer_body env q) = q"
  by (simp add: get_answer_body_def Let_def split: list.splits)

lemma example_split: "token_text_splitter example_env 1000 0 [7] = Inr [[7]]"
  by (simp add: example_env_def chunker_def windows_step windows_Nil)

lemma example_get_questions: "fst (get_questions example_env c) = Inr (Some example_questions)"
  by (simp add: get_questions_def example_env_def example_questions_def)

lemma example_questions_not_Nil: "example_questions \<noteq> []"
  by (simp add: example_questions_def)

lemma example_get_answer:
  "get_answer example_env example_questions
     = ([\<lparr>question = ''1. When?'', answer = '' '', metadata = '' ''\<rparr>,
         \<lparr>question = '''', answer = ''Error: Unable to process the question.'',
          metadata = '' ''\<rparr>,
         \<lparr>question = ''3. Where?'', answer = ''Answer: 3. In Paris.'',
          metadata = ''url: s3://kb/a.pdf''\<rparr>],
        [RetrieveAndGenerate ''1. When?'', RetrieveAndGenerate ''2. Who?'',
         RetrieveAndGenerate ''3. Where?''])"
  by (simp add: get_answer_eq example_sub_questions example_bodies)

lemma example_chunk_records:
  "chunk_records example_env c
     = [\<lparr>question = ''1. When?'', answer = '' '', metadata = '' ''\<rparr>,
        \<lparr>question = '''', answer = ''Error: Unable to process the question.'',
         metadata = '' ''\<rparr>,
        \<lparr>question = ''3. Where?'', answer = ''Answer: 3. In Paris.'',
         metadata = ''url: s3://kb/a.pdf''\<rparr>]"
  by (simp add: chunk_records_def example_get_questions example_questions_not_Nil
        example_get_answer)

lemma example_chunk_calls:
  "chunk_calls example_env c
     = [InvokeModel c, RetrieveAndGenerate ''1. When?'', RetrieveAndGenerate ''2. Who?'',
        RetrieveAndGenerate ''3. Where?'']"
  by (simp add: chunk_calls_def example_get_questions example_questions_not_Nil
        example_get_answer)

lemma example_run:
  "run_chunk_document example_env ''s3://bucket/rfi.pdf'' pr
     = ([StatusWrite PROCESSING NoMetadata, LoadDocument ''s3://bucket/rfi.pdf'',
         InvokeModel [7], RetrieveAndGenerate ''1. When?'', RetrieveAndGenerate ''2. Who?'',
         RetrieveAndGenerate ''3. Where?'', StatusWrite COMPLETED (RunCounts 1 1 3)],
        [\<lparr>question = ''1. When?'', answer = '' '', metadata = '' ''\<rparr>,
         \<lparr>question = '''', answer = ''Error: Unable to process the question.'',
          metadata = '' ''\<rparr>,
         \<lparr>question = ''3. Where?'', answer = ''Answer: 3. In Paris.'',
          metadata = ''url: s3://kb/a.pdf''\<rparr>])"
proof -
  have load: "load_and_split example_env ''s3://bucket/rfi.pdf'' = Inr [7]"
    by (simp add: example_env_def)
  have ok: "\<forall>c \<in> set [[7::nat]]. \<exists>blocks. invoke_model example_env c = Inr blocks"
    by (simp add: example_env_def)
  show ?thesis
    by (simp add: run_chunk_document_completes [OF load example_split ok]
          example_chunk_records example_chunk_calls)
qed

lemma failing_split:
  "token_text_splitter failing_env 1000 0 (replicate 1000 0 @ [1]) = Inr [replicate 1000 0, [1]]"
proof -
  have "windows 1000 0 (replicate 1000 (0::nat) @ [1]) = [replicate 1000 0, [1]]"
    by (simp add: windows.simps [of 1000 0])
  then show ?thesis
    by (simp add: failing_env_def example_env_def chunker_def)
qed

lemma failing_chunks_differ: "replicate 1000 (0::nat) \<noteq> [1]"
proof -
  have "length (replicate 1000 (0::nat)) \<noteq> length [1::nat]" by simp
  then show ?thesis by fastforce
qed

lemma failing_first_chunk:
  "invoke_model failing_env (replicate 1000 0) = Inl (ClientError ''timeout'')"
  using failing_chunks_differ by (simp add: failing_env_def)

lemma failing_second_chunk: "invoke_model failing_env [1] = Inr [example_questions]"
  by (simp add: failing_env_def)

lemma failing_run:
  "run_chunk_document failing_env ''s3://bucket/rfi.pdf'' pr
     = ([StatusWrite PROCESSING NoMetadata, LoadDocument ''s3://bucket/rfi.pdf'',
         InvokeModel (replicate 1000 0),
         StatusWrite ERROR (ErrorMessage (ClientError ''timeout''))], pr)"
proof -
  have load: "load_and_split failing_env ''s3://bucket/rfi.pdf'' = Inr (replicate 1000 0 @ [1])"
    by (simp add: failing_env_def)
  have split: "token_text_splitter failing_env 1000 0 (replicate 1000 0 @ [1])
                 = Inr ([] @ replicate 1000 0 # [[1]])"
    using failing_split by simp
  have pre: "\<forall>p \<in> set ([] :: nat list list). \<exists>blocks. invoke_model failing_env p = Inr blocks"
    by simp
  show ?thesis
    using run_chunk_document_extraction_fails [OF load split pre failing_first_chunk, of pr]
    by simp
qed

text \<open>
  Claim C1, as the code has it. When the generation call of a chunk raises, after the
  chunks before it were extracted, \<^verbatim>\<open>get_questions\<close> makes that one call and raises
  the error again, and the run is aborted there: the calls of the run are those of the
  earlier chunks and the one failed call, no later chunk is processed, the stored report
  is left as it was before the run, and the last call writes the status \<open>ERROR\<close> with
  the error, whether or not the failed chunk was the only one.
\<close>

theorem extraction_failure_aborts_run:
  assumes "load_and_split env docurl = Inr documents"
      and "token_text_splitter env 1000 0 documents = Inr (pre @ c # post)"
      and "\<forall>p \<in> set pre. \<exists>blocks. invoke_model env p = Inr blocks"
      and "invoke_model env c = Inl e"
  shows "get_questions env c = (Inl e, [InvokeModel c])
         \<and> run_chunk_document env docurl pr
             = ([StatusWrite PROCESSING NoMetadata, LoadDocument docurl]
                  @ concat (map (chunk_calls env) pre)
                  @ [InvokeModel c, StatusWrite ERROR (ErrorMessage e)],
                pr)"
  using assms run_chunk_document_extraction_fails [OF assms, of pr]
  by (simp add: get_questions_def)

theorem extraction_failure_aborts_run_witness:
  "load_and_split failing_env ''s3://bucket/rfi.pdf'' = Inr (replicate 1000 0 @ [1])
   \<and> token_text_splitter failing_env 1000 0 (replicate 1000 0 @ [1])
       = Inr ([] @ replicate 1000 0 # [[1]])
   \<and> invoke_model failing_env (replicate 1000 0) = Inl (ClientError ''timeout'')
   \<and> run_chunk_document failing_env ''s3://bucket/rfi.pdf''
         [\<lparr>question = ''old'', answer = ''old'', metadata = ''old''\<rparr>]
       = ([StatusWrite PROCESSING NoMetadata, LoadDocument ''s3://bucket/rfi.pdf'',
           InvokeModel (replicate 1000 0),
           StatusWrite ERROR (ErrorMessage (ClientError ''timeout''))],
          [\<lparr>question = ''old'', answer = ''old'', metadata = ''old''\<rparr>])"
proof -
  have load: "load_and_split failing_env ''s3://bucket/rfi.pdf'' = Inr (replicate 1000 0 @ [1])"
    by (simp add: failing_env_def)
  have split: "token_text_splitter failing_env 1000 0 (replicate 1000 0 @ [1])
                 = Inr ([] @ replicate 1000 0 # [[1]])"
    using failing_split by simp
  have pre: "\<forall>p \<in> set ([] :: nat list list). \<exists>blocks. invoke_model failing_env p = Inr blocks"
    by simp
  show ?thesis
    using extraction_failure_aborts_run [OF load split pre failing_first_chunk,
            of "[\<lparr>question = ''old'', answer = ''old'', metadata = ''old''\<rparr>]"]
      load split failing_first_chunk
    by simp
qed

text \<open>
  Claim C1 as stated says that the chunks after a failed one are still processed. In a
  run over two chunks where the generation call fails on the first and would succeed on
  the second, the second chunk is never sent to the model and the run ends in \<open>ERROR\<close>.
\<close>

theorem failed_chunk_aborts_run_counterexample:
  "token_text_splitter failing_env 1000 0 (replicate 1000 0 @ [1]) = Inr [replicate 1000 0, [1]]
   \<and> invoke_model failing_env (replicate 1000 0) = Inl (ClientError ''timeout'')
   \<and> invoke_model failing_env [1] = Inr [example_questions]
   \<and> fst (run_chunk_document failing_env ''s3://bucket/rfi.pdf'' [])
       = [StatusWrite PROCESSING NoMetadata, LoadDocument ''s3://bucket/rfi.pdf'',
          InvokeModel (replicate 1000 0),
          StatusWrite ERROR (ErrorMessage (ClientError ''timeout''))]
   \<and> InvokeModel [1] \<notin> set (fst (run_chunk_document failing_env ''s3://bucket/rfi.pdf'' []))"
  using failing_split failing_first_chunk failing_second_chunk failing_chunks_differ
    failing_run [of "[]"]
  by (simp add: eq_commute [of "[Suc 0]"])

text \<open>
  Claim C2. When the text of the document is empty and the splitter is the chunker of the
  specification, the run fails with \<open>ChunkingError\<close>: the handler of
  \<^verbatim>\<open>run_chunk_document\<close> writes the status \<open>ERROR\<close> with that error, and the calls
  of the run contain no generation call and no retrieval call.
\<close>

theorem empty_document_fails_before_model_calls:
  assumes "load_and_split env docurl = Inr []"
      and "token_text_splitter env = chunker"
  shows "run_chunk_document env docurl pr
           = ([StatusWrite PROCESSING NoMetadata, LoadDocument docurl,
               StatusWrite ERROR (ErrorMessage ChunkingError)], pr)
         \<and> \<not> list_ex is_model_call (fst (run_chunk_document env docurl pr))"
proof -
  have "token_text_splitter env 1000 0 [] = Inl ChunkingError"
    using assms(2) by (simp add: chunker_def)
  then show ?thesis
    using run_chunk_document_split_fails [OF assms(1), of ChunkingError pr] by simp
qed

theorem empty_document_fails_before_model_calls_witness:
  "load_and_split empty_document_env ''s3://bucket/empty.pdf'' = Inr []
   \<and> token_text_splitter empty_document_env = chunker
   \<and> run_chunk_document empty_document_env ''s3://bucket/empty.pdf'' []
       = ([StatusWrite PROCESSING NoMetadata, LoadDocument ''s3://bucket/empty.pdf'',
           StatusWrite ERROR (ErrorMessage ChunkingError)], [])"
proof -
  have load: "load_and_split empty_document_env ''s3://bucket/empty.pdf'' = Inr []"
    by (simp add: empty_document_env_def)
  have split: "token_text_splitter empty_document_env = chunker"
    by (simp add: empty_document_env_def example_env_def)
  show ?thesis
    using empty_document_fails_before_model_calls [OF load split, of "[]"] load split
    by simp
qed

text \<open>
  Claim C7. On the processing path of the upload tab the status \<open>UPLOADED\<close> is written
  first, the run writes \<open>PROCESSING\<close> as its first call, only the loader and model calls
  follow, and the last call of the run writes exactly one of \<open>COMPLETED\<close> and \<open>ERROR\<close>:
  the statuses written are \<open>UPLOADED\<close>, \<open>PROCESSING\<close> and one terminal status, in this
  order, and nothing is written after the terminal status.
\<close>

theorem status_transitions:
  assumes "url \<noteq> []"
  shows "\<exists>calls t m. (t = COMPLETED \<or> t = ERROR) \<and> list_all is_model_call calls
           \<and> fst (display_upload_tab env (Some url) pr)
               = [StatusWrite UPLOADED NoMetadata, StatusWrite PROCESSING NoMetadata,
                  LoadDocument url] @ calls @ [StatusWrite t m]
           \<and> status_writes (fst (display_upload_tab env (Some url) pr))
               = [UPLOADED, PROCESSING, t]"
proof -
  obtain calls t m where t: "t = COMPLETED \<or> t = ERROR"
    and model: "list_all is_model_call calls"
    and run: "fst (run_chunk_document env url pr)
                = [StatusWrite PROCESSING NoMetadata, LoadDocument url] @ calls @ [StatusWrite t m]"
    using run_chunk_document_calls [of env url pr] by auto
  have tab: "fst (display_upload_tab env (Some url) pr)
               = [StatusWrite UPLOADED NoMetadata, StatusWrite PROCESSING NoMetadata,
                  LoadDocument url] @ calls @ [StatusWrite t m]"
    using assms run by (cases "run_chunk_document env url pr") (simp add: display_upload_tab_def)
  have "status_writes (fst (display_upload_tab env (Some url) pr)) = [UPLOADED, PROCESSING, t]"
    using model by (simp add: tab status_writes_append status_writes_model_calls)
  then show ?thesis
    using t model tab by (intro exI [of _ calls] exI [of _ t] exI [of _ m]) simp
qed
theorem status_transitions_witness:
  "''s3://bucket/rfi.pdf'' \<noteq> []
   \<and> fst (display_upload_tab example_env (Some ''s3://bucket/rfi.pdf'') [])
       = [StatusWrite UPLOADED NoMetadata, StatusWrite PROCESSING NoMetadata,
          LoadDocument ''s3://bucket/rfi.pdf'', InvokeModel [7],
          RetrieveAndGenerate ''1. When?'', RetrieveAndGenerate ''2. Who?'',
          RetrieveAndGenerate ''3. Where?'', StatusWrite COMPLETED (RunCounts 1 1 3)]
   \<and> status_writes (fst (display_upload_tab example_env (Some ''s3://bucket/rfi.pdf'') []))
       = [UPLOADED, PROCESSING, COMPLETED]
   \<and> status_writes (fst (display_upload_tab failing_env (Some ''s3://bucket/rfi.pdf'') []))
       = [UPLOADED, PROCESSING, ERROR]"
proof -
  have url: "''s3://bucket/rfi.pdf'' \<noteq> []"
    by simp
  show ?thesis
    using status_transitions [OF url, of example_env "[]"]
      status_transitions [OF url, of failing_env "[]"]
    by (simp add: display_upload_tab_def example_run failing_run)
qed

text \<open>
  Claim C8. When every extraction of a run returns, the stored report is the
  concatenation of the records of the chunks, in the order of the chunks and, within a
  chunk, of its sub-questions. For every list of records and every time of export, the
  question sections of the exported document are numbered from 1 and carry the questions
  of the records in the order of the list; exporting the same list again gives the same
  question sections.
\<close>

theorem report_and_export_order:
  assumes "load_and_split env docurl = Inr documents"
      and "token_text_splitter env 1000 0 documents = Inr chunks"
      and "\<forall>c \<in> set chunks. \<exists>blocks. invoke_model env c = Inr blocks"
  shows "snd (run_chunk_document env docurl pr) = concat (map (chunk_records env) chunks)
         \<and> question_sections (create_word_document t results)
             = map (\<lambda>(i, result). (''Question '' @ str_nat (i + 1) @ '':'', question result))
                 (List.enumerate 0 results)
         \<and> map snd (question_sections (create_word_document t results)) = map question results
         \<and> question_sections (create_word_document t' results)
             = question_sections (create_word_document t results)"
proof -
  have report: "snd (run_chunk_document env docurl pr) = concat (map (chunk_records env) chunks)"
    using run_chunk_document_completes [OF assms, of pr] by simp
  have sections:
    "question_sections (create_word_document t results)
       = map (\<lambda>(i, result). (''Question '' @ str_nat (i + 1) @ '':'', question result))
           (List.enumerate 0 results)"
    by (rule question_sections_document)
  have questions:
    "map snd (question_sections (create_word_document t results)) = map question results"
    by (rule document_questions)
  have again:
    "question_sections (create_word_document t' results)
       = question_sections (create_word_document t results)"
    by (simp only: question_sections_document)
  show ?thesis
    using report sections questions again by (intro conjI)
qed

theorem report_and_export_order_witness:
  "load_and_split example_env ''s3://bucket/rfi.pdf'' = Inr [7]
   \<and> token_text_splitter example_env 1000 0 [7] = Inr [[7]]
   \<and> snd (run_chunk_document example_env ''s3://bucket/rfi.pdf'' [])
       = [\<lparr>question = ''1. When?'', answer = '' '', metadata = '' ''\<rparr>,
          \<lparr>question = '''', answer = ''Error: Unable to process the question.'',
           metadata = '' ''\<rparr>,
          \<lparr>question = ''3. Where?'', answer = ''Answer: 3. In Paris.'',
           metadata = ''url: s3://kb/a.pdf''\<rparr>]
   \<and> question_sections
         (create_word_document ''2024-05-01 10:00:00''
            (snd (run_chunk_document example_env ''s3://bucket/rfi.pdf'' [])))
       = [(''Question 1:'', ''1. When?''), (''Question 2:'', ''''),
          (''Question 3:'', ''3. Where?'')]"
proof -
  have load: "load_and_split example_env ''s3://bucket/rfi.pdf'' = Inr [7]"
    by (simp add: example_env_def)
  have ok: "\<forall>c \<in> set [[7::nat]]. \<exists>blocks. invoke_model example_env c = Inr blocks"
    by (simp add: example_env_def)
  have digits: "str_nat (Suc 0) = ''1''" "str_nat (Suc (Suc 0)) = ''2''"
    "str_nat (Suc (Suc (Suc 0))) = ''3''"
    by (simp_all add: str_nat.simps digit_char_def)
  show ?thesis
    using report_and_export_order [OF load example_split ok,
            of "[]" "''2024-05-01 10:00:00''"
               "snd (run_chunk_document example_env ''s3://bucket/rfi.pdf'' [])"
               "''2024-05-01 10:00:00''"]
      load example_split digits
    by (simp add: example_run example_chunk_records)
qed

text \<open>
  Claim C10. When the retrieval call of a sub-question raises, the record appended for it
  has the empty string as its question, and so has its section of the exported document;
  the question is stored only after the call has returned: a sub-question whose call
  returns has itself as the question of its record.
\<close>

theorem failed_call_record_has_no_question:
  assumes "i < length (sub_questions questions)"
      and "retrieve_and_generate env (sub_questions questions ! i) = Inl e"
  shows "question (fst (get_answer env questions) ! i) = ''''
         \<and> snd (question_sections (create_word_document t (fst (get_answer env questions))) ! i)
             = ''''
         \<and> (\<forall>j < length (sub_questions questions).
               (\<exists>response. retrieve_and_generate env (sub_questions questions ! j) = Inr response)
                 \<longrightarrow> question (fst (get_answer env questions) ! j) = sub_questions questions ! j)"
proof -
  let ?records = "fst (get_answer env questions)"
  have len: "length ?records = length (sub_questions questions)"
    by (simp add: get_answer_eq)
  have q: "question (?records ! i) = ''''"
    using assms by (simp add: get_answer_eq get_answer_body_raises)
  have "length (question_sections (create_word_document t ?records)) = length ?records"
    using arg_cong [OF document_questions [of t ?records], of length] by simp
  then have "snd (question_sections (create_word_document t ?records) ! i)
               = map snd (question_sections (create_word_document t ?records)) ! i"
    using assms(1) len by simp
  also have "\<dots> = question (?records ! i)"
    using assms(1) len by (simp add: document_questions)
  finally have export: "snd (question_sections (create_word_document t ?records) ! i) = ''''"
    using q by simp
  have "\<forall>j < length (sub_questions questions).
          (\<exists>response. retrieve_and_generate env (sub_questions questions ! j) = Inr response)
            \<longrightarrow> question (?records ! j) = sub_questions questions ! j"
    by (auto simp: get_answer_eq get_answer_body_returns)
  then show ?thesis
    using q export by simp
qed

theorem failed_call_record_has_no_question_witness:
  "(1::nat) < length (sub_questions example_questions)
   \<and> retrieve_and_generate example_env (sub_questions example_questions ! 1)
       = Inl (OtherException ''throttled'')
   \<and> sub_questions example_questions ! 1 = ''2. Who?''
   \<and> question (fst (get_answer example_env example_questions) ! 1) = ''''
   \<and> question (fst (get_answer example_env example_questions) ! 2) = ''3. Where?''"
proof -
  have i: "(1::nat) < length (sub_questions example_questions)"
    by (simp add: example_sub_questions)
  have e: "retrieve_and_generate example_env (sub_questions example_questions ! 1)
             = Inl (OtherException ''throttled'')"
    by (simp add: example_sub_questions example_env_def)
  show ?thesis
    using failed_call_record_has_no_question [OF i e, of "''2024-05-01 10:00:00''"] i e
    by (simp add: example_sub_questions example_get_answer)
qed

end
